theory Spec2Isabelle
  imports Main "HOL-Library.Sublist" "HOL-Library.Multiset"
begin

section \<open>Strings of the host language\<close>

text \<open>
  A JavaScript string is a sequence of code units. The model uses \<^typ>\<open>string\<close>, whose
  characters are the code units \<open>0x00\<close> to \<open>0xFF\<close> (the Latin-1 block); the desktop
  entries the program reads are written in that range. Each primitive below is the
  built-in of the same name, restricted to that alphabet.
\<close>

definition startsWith :: "string \<Rightarrow> string \<Rightarrow> bool" where
  "startsWith s p = prefix p s"

definition endsWith :: "string \<Rightarrow> string \<Rightarrow> bool" where
  "endsWith s p = suffix p s"

text \<open>\<open>s.includes(sub)\<close>: \<open>sub\<close> occurs at some position of \<open>s\<close>, searched left to right.\<close>

fun includes_str :: "string \<Rightarrow> string \<Rightarrow> bool" where
  "includes_str [] sub = (sub = [])"
| "includes_str (c # cs) sub = (prefix sub (c # cs) \<or> includes_str cs sub)"

text \<open>\<open>s.substring(n)\<close> with one argument: the code units from index \<open>n\<close> on.\<close>

definition substring :: "string \<Rightarrow> nat \<Rightarrow> string" where
  "substring s n = drop n s"

text \<open>
  White space and line terminators of ECMAScript below \<open>0x100\<close>: TAB, LF, VT, FF, CR,
  SP and NBSP. Both \<open>trim\<close> and the regular expression class \<open>\s\<close> use this set.
\<close>

definition isWhiteSpace :: "char \<Rightarrow> bool" where
  "isWhiteSpace c = (of_char c \<in> {9, 10, 11, 12, 13, 32, 160 :: nat})"

definition trim :: "string \<Rightarrow> string" where
  "trim s = rev (dropWhile isWhiteSpace (rev (dropWhile isWhiteSpace s)))"

text \<open>A string with no white space at either end, as \<open>trim\<close> returns it.\<close>

definition trimmed :: "string \<Rightarrow> bool" where
  "trimmed s = (s = [] \<or> (\<not> isWhiteSpace (hd s) \<and> \<not> isWhiteSpace (last s)))"

text \<open>
  \<open>s.split(sep)\<close> for a separator of one code unit: the pieces between the
  occurrences of the separator, empty pieces included; the empty string gives one
  empty piece.
\<close>

fun split :: "string \<Rightarrow> char \<Rightarrow> string list" where
  "split [] sep = [[]]"
| "split (c # cs) sep =
     (if c = sep then [] # split cs sep
      else (case split cs sep of
              [] \<Rightarrow> [[c]]
            | piece # pieces \<Rightarrow> (c # piece) # pieces))"

text \<open>
  \<open>s.split(/\s+/)\<close>: the pieces between the maximal runs of white space. A string that
  starts (ends) with white space gives an empty first (last) piece, and the empty
  string gives one empty piece, as the regular expression does not match it.
\<close>

function splitWhiteSpace :: "string \<Rightarrow> string list" where
  "splitWhiteSpace s =
     (let piece = takeWhile (\<lambda>c. \<not> isWhiteSpace c) s;
          rest = dropWhile (\<lambda>c. \<not> isWhiteSpace c) s
      in if rest = [] then [piece]
         else piece # splitWhiteSpace (dropWhile isWhiteSpace rest))"
  by pat_completeness auto
termination
proof (relation "measure length")
  show "wf (measure length)" by simp
next
  fix s :: string and piece rest
  assume rest: "rest = dropWhile (\<lambda>c. \<not> isWhiteSpace c) s" and ne: "rest \<noteq> []"
  from ne obtain c cs where cons: "rest = c # cs" by (cases rest) auto
  have "isWhiteSpace c"
    using rest cons dropWhile_eq_Cons_conv [of "\<lambda>c. \<not> isWhiteSpace c" s c cs] by simp
  then have "length (dropWhile isWhiteSpace rest) \<le> length cs"
    using cons length_dropWhile_le [of isWhiteSpace cs] by simp
  moreover have "length rest \<le> length s"
    using rest length_dropWhile_le [of "\<lambda>c. \<not> isWhiteSpace c" s] by simp
  ultimately show "(dropWhile isWhiteSpace rest, s) \<in> measure length"
    using cons by simp
qed

declare splitWhiteSpace.simps [simp del]

text \<open>
  \<open>s.toLowerCase()\<close> on the Latin-1 block: \<open>A\<close> to \<open>Z\<close> and the accented capitals
  \<open>0xC0\<close> to \<open>0xDE\<close> (the multiplication sign \<open>0xD7\<close> apart) move up by 32; every
  other code unit is unchanged.
\<close>

definition toLowerCaseChar :: "char \<Rightarrow> char" where
  "toLowerCaseChar c =
     (let n = of_char c :: nat
      in if (65 \<le> n \<and> n \<le> 90) \<or> (192 \<le> n \<and> n \<le> 222 \<and> n \<noteq> 215)
         then char_of (n + 32) else c)"

definition toLowerCase :: "string \<Rightarrow> string" where
  "toLowerCase s = map toLowerCaseChar s"

section \<open>The module descriptor and its parser\<close>

record KCMModule =
  id_m :: string
  name :: string
  description :: string
  icon :: string
  keywords_m :: "string list"
  execCommand :: "string"

text \<open>The local variables of \<open>parseDesktopFile\<close> that the loop over the lines assigns.\<close>

record parse_vars =
  v_name :: string
  v_description :: string
  v_icon :: string
  v_keywords :: "string list"
  v_moduleId :: string
  v_execCommand :: string

definition initial_vars :: parse_vars where
  "initial_vars =
     \<lparr>v_name = [], v_description = [], v_icon = [], v_keywords = [],
      v_moduleId = [], v_execCommand = []\<rparr>"

text \<open>One turn of the loop over the lines: the first branch whose test holds runs.\<close>

definition parse_line :: "string \<Rightarrow> parse_vars \<Rightarrow> parse_vars" where
  "parse_line line v =
     (if startsWith line ''Name='' \<and> \<not> includes_str line ''[''
        then v\<lparr>v_name := trim (substring line 5)\<rparr>
      else if startsWith line ''Comment='' \<and> \<not> includes_str line ''[''
        then v\<lparr>v_description := trim (substring line 8)\<rparr>
      else if startsWith line ''Icon=''
        then v\<lparr>v_icon := trim (substring line 5)\<rparr>
      else if startsWith line ''X-KDE-Keywords='' \<and> \<not> includes_str line ''[''
        then v\<lparr>v_keywords :=
                 filter (\<lambda>k. length k > 0)
                   (map trim (split (trim (substring line 15)) (CHR '',''))) \<rparr>
      else if startsWith line ''X-KDE-Library=''
        then v\<lparr>v_moduleId := trim (substring line 14)\<rparr>
      else if startsWith line ''Exec=''
        then v\<lparr>v_execCommand := trim (substring line 5)\<rparr>
      else v)"

fun parse_lines :: "string list \<Rightarrow> parse_vars \<Rightarrow> parse_vars" where
  "parse_lines [] v = v"
| "parse_lines (line # lines) v = parse_lines lines (parse_line line v)"

text \<open>The variables after the loop, for the content of a file.\<close>

definition extract_vars :: "string \<Rightarrow> parse_vars" where
  "extract_vars content = parse_lines (split content (CHR 0x0A)) initial_vars"

text \<open>
  The identifier and the launch command (\<open>finalModuleId\<close>, \<open>finalCommand\<close>); both stay
  empty when no branch assigns them.
\<close>

definition resolve :: "string \<Rightarrow> string \<Rightarrow> string \<times> string" where
  "resolve execCmd moduleId =
     (if includes_str execCmd ''systemsettings'' then
        (let parts = splitWhiteSpace execCmd
         in if length parts > 1 \<and> parts ! 1 \<noteq> [] then (parts ! 1, execCmd)
            else ([], []))
      else if moduleId \<noteq> [] then (moduleId, ''kcmshell6 '' @ moduleId)
      else ([], []))"

text \<open>
  The rule table in the words of the spec's claim, to compare \<open>resolve\<close> with: rule 1
  resolves when the command contains the launcher token and has two pieces; whenever
  it did not resolve, rule 2 takes a captured library reference.
\<close>

definition rule_table_as_claimed :: "string \<Rightarrow> string \<Rightarrow> (string \<times> string) option" where
  "rule_table_as_claimed execCmd moduleId =
     (if includes_str execCmd ''systemsettings'' \<and> 2 \<le> length (splitWhiteSpace execCmd)
        then Some (splitWhiteSpace execCmd ! 1, execCmd)
      else if moduleId \<noteq> [] then Some (moduleId, ''kcmshell6 '' @ moduleId)
      else None)"

text \<open>
  Everything of \<open>parseDesktopFile\<close> after the file has been read: \<open>None\<close> is the
  \<open>null\<close> the function returns.
\<close>

definition parseContent :: "string \<Rightarrow> KCMModule option" where
  "parseContent content =
     (let v = extract_vars content in
      if v_name v = [] then None
      else
        (let (finalModuleId, finalCommand) = resolve (v_execCommand v) (v_moduleId v)
         in if finalModuleId = [] then None
            else Some
              \<lparr>id_m = finalModuleId,
               name = v_name v,
               description = (if v_description v \<noteq> [] then v_description v else v_name v),
               icon = (if v_icon v \<noteq> [] then v_icon v else ''preferences-system''),
               keywords_m = v_keywords v,
               execCommand = finalCommand\<rparr>))"

text \<open>
  The file system as the program sees it: a directory is missing, cannot be listed
  (\<open>readdirSync\<close> throws) or lists its entries; a path has a content or cannot be read
  (\<open>readFileSync\<close> throws).
\<close>

datatype directory = Missing | Unreadable | Entries "string list"

record filesystem =
  directories :: "string \<Rightarrow> directory"
  files :: "string \<Rightarrow> string option"

text \<open>
  \<open>parseDesktopFile\<close>: an exception of \<open>readFileSync\<close> is caught and gives \<open>null\<close>
  (the message goes to the console, which the model leaves out).
\<close>

definition parseDesktopFile :: "filesystem \<Rightarrow> string \<Rightarrow> KCMModule option" where
  "parseDesktopFile fs filePath =
     (case files fs filePath of
        None \<Rightarrow> None
      | Some content \<Rightarrow> parseContent content)"

section \<open>The scanner\<close>

text \<open>The accumulators of \<open>loadKCMModules\<close>: the array \<open>modules\<close> and the set \<open>seen\<close>.\<close>

record scan_state =
  modules :: "KCMModule list"
  seen :: "string set"

text \<open>\<open>join(dir, file)\<close> for a directory path and an entry name of that directory.\<close>

definition join :: "string \<Rightarrow> string \<Rightarrow> string" where
  "join dir file = dir @ ''/'' @ file"

text \<open>A descriptor is pushed, and its id recorded, unless its id has been seen.\<close>

definition push_unseen :: "KCMModule \<Rightarrow> scan_state \<Rightarrow> scan_state" where
  "push_unseen m st =
     (if id_m m \<in> seen st then st
      else st\<lparr>modules := modules st @ [m], seen := insert (id_m m) (seen st)\<rparr>)"

text \<open>The body of the loop over the entries, for an entry whose name passed the test.\<close>

definition visit :: "filesystem \<Rightarrow> string \<Rightarrow> string \<Rightarrow> scan_state \<Rightarrow> scan_state" where
  "visit fs dir file st =
     (case parseDesktopFile fs (join dir file) of
        None \<Rightarrow> st
      | Some m \<Rightarrow> push_unseen m st)"

fun scan_files ::
  "filesystem \<Rightarrow> string \<Rightarrow> (string \<Rightarrow> bool) \<Rightarrow> string list \<Rightarrow> scan_state \<Rightarrow> scan_state" where
  "scan_files fs dir wanted [] st = st"
| "scan_files fs dir wanted (file # rest) st =
     scan_files fs dir wanted rest (if wanted file then visit fs dir file st else st)"

text \<open>
  One origin: skipped when \<open>existsSync\<close> is false; an exception of \<open>readdirSync\<close> is
  caught before any entry has been visited.
\<close>

definition scan_directory ::
  "filesystem \<Rightarrow> string \<Rightarrow> (string \<Rightarrow> bool) \<Rightarrow> scan_state \<Rightarrow> scan_state" where
  "scan_directory fs dir wanted st =
     (case directories fs dir of
        Missing \<Rightarrow> st
      | Unreadable \<Rightarrow> st
      | Entries entries \<Rightarrow> scan_files fs dir wanted entries st)"

definition applicationsDir :: string where
  "applicationsDir = ''/usr/share/applications''"

definition kservices5Dir :: string where
  "kservices5Dir = ''/usr/share/kservices5''"

definition wanted_modern :: "string \<Rightarrow> bool" where
  "wanted_modern file = (startsWith file ''kcm_'' \<and> endsWith file ''.desktop'')"

definition wanted_legacy :: "string \<Rightarrow> bool" where
  "wanted_legacy file = endsWith file ''.desktop''"

text \<open>The array \<open>modules\<close> when both origins have been scanned, before it is sorted.\<close>

definition scanned_modules :: "filesystem \<Rightarrow> KCMModule list" where
  "scanned_modules fs =
     modules
       (scan_directory fs kservices5Dir wanted_legacy
         (scan_directory fs applicationsDir wanted_modern \<lparr>modules = [], seen = {}\<rparr>))"

text \<open>
  \<open>modules.sort((a, b) => a.name.localeCompare(b.name))\<close>. The collation of
  \<open>localeCompare\<close> belongs to the host and its locale, so it is a parameter \<open>cmp\<close>: a
  negative, zero or positive number. \<open>Array.prototype.sort\<close> is stable; an element goes
  before the first element it does not compare greater than.
\<close>

fun insert_module ::
  "(string \<Rightarrow> string \<Rightarrow> int) \<Rightarrow> KCMModule \<Rightarrow> KCMModule list \<Rightarrow> KCMModule list" where
  "insert_module cmp m [] = [m]"
| "insert_module cmp m (x # xs) =
     (if cmp (name m) (name x) \<le> 0 then m # x # xs else x # insert_module cmp m xs)"

definition sort_modules :: "(string \<Rightarrow> string \<Rightarrow> int) \<Rightarrow> KCMModule list \<Rightarrow> KCMModule list" where
  "sort_modules cmp ms = foldr (insert_module cmp) ms []"

definition loadKCMModules :: "(string \<Rightarrow> string \<Rightarrow> int) \<Rightarrow> filesystem \<Rightarrow> KCMModule list" where
  "loadKCMModules cmp fs = sort_modules cmp (scanned_modules fs)"

text \<open>
  What a collation guarantees (a consistent comparator): any two names are comparable,
  and "not greater than" is transitive.
\<close>

definition consistent_comparator :: "(string \<Rightarrow> string \<Rightarrow> int) \<Rightarrow> bool" where
  "consistent_comparator cmp =
     ((\<forall>a b. cmp a b \<le> 0 \<or> cmp b a \<le> 0) \<and>
      (\<forall>a b c. cmp a b \<le> 0 \<and> cmp b c \<le> 0 \<longrightarrow> cmp a c \<le> 0))"

text \<open>Two names tie when neither is greater than the other.\<close>

definition ties :: "(string \<Rightarrow> string \<Rightarrow> int) \<Rightarrow> string \<Rightarrow> string \<Rightarrow> bool" where
  "ties cmp a b = (cmp a b \<le> 0 \<and> cmp b a \<le> 0)"

text \<open>
  A collation to run the sort with: the order of the code units, the shorter string
  first when one is a prefix of the other.
\<close>

fun compareCodeUnits :: "string \<Rightarrow> string \<Rightarrow> int" where
  "compareCodeUnits [] [] = 0"
| "compareCodeUnits [] (y # ys) = - 1"
| "compareCodeUnits (x # xs) [] = 1"
| "compareCodeUnits (x # xs) (y # ys) =
     (if (of_char x :: nat) < of_char y then - 1
      else if (of_char y :: nat) < of_char x then 1
      else compareCodeUnits xs ys)"

text \<open>
  The descriptors an origin offers, in the order of its listing: the spec's "records
  of an origin", against which the scanner's accumulation is compared.
\<close>

definition descriptors_of :: "filesystem \<Rightarrow> string \<Rightarrow> (string \<Rightarrow> bool) \<Rightarrow> KCMModule list" where
  "descriptors_of fs dir wanted =
     (case directories fs dir of
        Missing \<Rightarrow> []
      | Unreadable \<Rightarrow> []
      | Entries entries \<Rightarrow>
          List.map_filter (\<lambda>file. parseDesktopFile fs (join dir file)) (filter wanted entries))"

text \<open>The accumulation of a list of descriptors, one after the other.\<close>

fun accumulate :: "KCMModule list \<Rightarrow> scan_state \<Rightarrow> scan_state" where
  "accumulate [] st = st"
| "accumulate (m # ms) st = accumulate ms (push_unseen m st)"

text \<open>The accumulators are in step: the ids seen are the ids of the descriptors pushed.\<close>

definition in_step :: "scan_state \<Rightarrow> bool" where
  "in_step st = (seen st = id_m ` set (modules st) \<and> distinct (map id_m (modules st)))"

section \<open>The search filter\<close>

text \<open>The callback of \<open>modules.filter\<close> in \<open>SearchSettings\<close>.\<close>

definition matches :: "string \<Rightarrow> KCMModule \<Rightarrow> bool" where
  "matches searchText m =
     (if searchText = [] then True
      else
        (let search = toLowerCase searchText;
             matchesName = includes_str (toLowerCase (name m)) search;
             matchesDescription = includes_str (toLowerCase (description m)) search;
             matchesKeywords =
               list_ex (\<lambda>keyword. includes_str (toLowerCase keyword) search) (keywords_m m)
         in matchesName \<or> matchesDescription \<or> matchesKeywords))"

definition filteredModules :: "KCMModule list \<Rightarrow> string \<Rightarrow> KCMModule list" where
  "filteredModules ms searchText = filter (matches searchText) ms"

section \<open>The launch invokers\<close>

text \<open>
  What the shell command does when it is run. It starts or it does not; left alone
  it exits after \<open>lifetime\<close> milliseconds with \<open>exit_code\<close>, or never; sent SIGTERM it
  dies, unless it traps the signal and runs on; and its output may pass the
  \<open>maxBuffer\<close> of the platform, \<open>floods_at\<close> milliseconds after its start.
\<close>

record process =
  starts :: bool
  lifetime :: "nat option"
  exit_code :: nat
  traps_sigterm :: bool
  floods_at :: "nat option"

text \<open>
  Three well-behaved commands, which die when they are sent SIGTERM and write
  little: one that cannot be started, one that exits after a time with an exit
  code, and one that never exits.
\<close>

definition Cannot_start :: process where
  "Cannot_start =
     \<lparr>starts = False, lifetime = None, exit_code = 0, traps_sigterm = False,
      floods_at = None\<rparr>"

definition Exits :: "nat \<Rightarrow> nat \<Rightarrow> process" where
  "Exits t code =
     \<lparr>starts = True, lifetime = Some t, exit_code = code, traps_sigterm = False,
      floods_at = None\<rparr>"

definition Runs_forever :: process where
  "Runs_forever =
     \<lparr>starts = True, lifetime = None, exit_code = 0, traps_sigterm = False,
      floods_at = None\<rparr>"

datatype failure = ProcessError | NonZeroExit nat | TimedOut | BufferExceeded

text \<open>A promise at the end of time: never settled, fulfilled or rejected.\<close>

datatype 'a promise = Pending | Fulfilled 'a | Rejected failure

text \<open>
  \<open>execAsync(command, {timeout})\<close> of the platform. The promise is rejected when the
  command cannot be started. The platform sends SIGTERM once when the output passes
  \<open>maxBuffer\<close> while the child runs and its streams are read, and once when the
  child runs longer than the timeout, if one is given; after the timeout the streams
  are no longer read. A child that dies of the signal rejects the promise. A child
  that traps it runs on: the promise settles only if the child exits by itself, as
  rejected after an overflow, and by the exit code otherwise. With no signal sent,
  the promise settles by the exit code when the child exits, and never if it does
  not.
\<close>

definition execAsync :: "(string \<Rightarrow> process) \<Rightarrow> string \<Rightarrow> nat option \<Rightarrow> unit promise" where
  "execAsync run command timeout =
     (let p = run command;
          flooded =
            (case floods_at p of
               None \<Rightarrow> False
             | Some f \<Rightarrow>
                 (case timeout of None \<Rightarrow> True | Some limit \<Rightarrow> f \<le> limit)
                 \<and> (case lifetime p of None \<Rightarrow> True | Some t \<Rightarrow> f \<le> t));
          timed_out =
            (\<not> flooded
             \<and> (case timeout of
                   None \<Rightarrow> False
                 | Some limit \<Rightarrow> (case lifetime p of None \<Rightarrow> True | Some t \<Rightarrow> limit < t)));
          by_exit_code =
            (if exit_code p = 0 then Fulfilled () else Rejected (NonZeroExit (exit_code p)))
      in if \<not> starts p then Rejected ProcessError
         else if flooded then
           (if traps_sigterm p
            then (case lifetime p of None \<Rightarrow> Pending | Some t \<Rightarrow> Rejected BufferExceeded)
            else Rejected BufferExceeded)
         else if timed_out then
           (if traps_sigterm p
            then (case lifetime p of None \<Rightarrow> Pending | Some t \<Rightarrow> by_exit_code)
            else Rejected TimedOut)
         else (case lifetime p of None \<Rightarrow> Pending | Some t \<Rightarrow> by_exit_code))"

text \<open>What an invoker does that its surroundings can see, in order.\<close>

datatype event =
    ShowToast string string
  | CloseMainWindow
  | ConsoleError string failure

text \<open>
  \<open>openKCMModule(moduleName, command)\<close> of \<open>command-executor.ts\<close>. \<open>message\<close> is the
  text of \<open>error.message\<close>; the toasts and the closing of the window are taken to
  succeed.
\<close>

definition openKCMModule_executor ::
  "(string \<Rightarrow> process) \<Rightarrow> (failure \<Rightarrow> string) \<Rightarrow> string \<Rightarrow> string \<Rightarrow> event list \<times> unit promise" where
  "openKCMModule_executor run message moduleName command =
     (let opening =
            [ShowToast (''Opening '' @ moduleName @ ''...'') ''Launching KDE System Settings'']
      in case execAsync run command (Some 20000) of
           Pending \<Rightarrow> (opening, Pending)
         | Fulfilled u \<Rightarrow>
             (opening @
                [ShowToast ''Success'' (moduleName @ '' opened successfully''), CloseMainWindow],
              Fulfilled ())
         | Rejected e \<Rightarrow>
             (opening @
                [ShowToast ''Error'' (''Failed to open '' @ moduleName @ '': '' @ message e)],
              Fulfilled ()))"

text \<open>
  \<open>openKCMModule(command)\<close> of the search command, which its action panel calls: no
  timeout is passed, and a failure goes to the console.
\<close>

definition openKCMModule_search :: "(string \<Rightarrow> process) \<Rightarrow> string \<Rightarrow> event list \<times> unit promise" where
  "openKCMModule_search run command =
     (case execAsync run command None of
        Pending \<Rightarrow> ([], Pending)
      | Fulfilled u \<Rightarrow> ([], Fulfilled ())
      | Rejected e \<Rightarrow> ([ConsoleError ''Error opening module:'' e], Fulfilled ()))"

section \<open>Example inputs\<close>

definition bluetooth :: KCMModule where
  "bluetooth =
     \<lparr>id_m = ''kcm_bluetooth'', name = ''Bluetooth'', description = ''Bluetooth'',
      icon = ''preferences-system'', keywords_m = [''wireless'', ''BT''],
      execCommand = ''systemsettings kcm_bluetooth''\<rparr>"

definition display :: KCMModule where
  "display =
     \<lparr>id_m = ''kcm_kscreen'', name = ''Display'', description = ''Monitors'',
      icon = ''preferences-system'', keywords_m = [''screen''],
      execCommand = ''systemsettings kcm_kscreen''\<rparr>"

definition modern_record :: string where
  "modern_record = ''Name=Foo'' @ [CHR 0x0A] @ ''Exec=systemsettings kcm_foo''"

definition legacy_record :: string where
  "legacy_record = ''Name=Bar'' @ [CHR 0x0A] @ ''X-KDE-Library=kcm_bar''"

definition launcher_without_module :: string where
  "launcher_without_module =
     ''Name=Foo'' @ [CHR 0x0A] @ ''Exec=systemsettings'' @ [CHR 0x0A] @ ''X-KDE-Library=kcm_foo''"

definition named_launcher_with_library :: string where
  "named_launcher_with_library =
     ''Name=Baz'' @ [CHR 0x0A] @ ''Exec=systemsettings'' @ [CHR 0x0A] @ ''X-KDE-Library=kcm_baz''"

definition no_name_record :: string where
  "no_name_record = ''Comment=Nameless'' @ [CHR 0x0A] @ ''Exec=systemsettings kcm_foo''"

definition bare_launcher_record :: string where
  "bare_launcher_record = ''Name=Foo'' @ [CHR 0x0A] @ ''Exec=systemsettings''"

definition full_record :: string where
  "full_record =
     ''Name=Foo'' @ [CHR 0x0A] @ ''Comment=Bar baz'' @ [CHR 0x0A] @ ''Icon=foo-icon''
       @ [CHR 0x0A] @ ''Exec=systemsettings kcm_foo''"

definition bracket_record :: string where
  "bracket_record = ''Name=Foo [Beta]'' @ [CHR 0x0A] @ ''Exec=systemsettings kcm_foo''"

definition foo_module :: KCMModule where
  "foo_module =
     \<lparr>id_m = ''kcm_foo'', name = ''Foo'', description = ''Foo'',
      icon = ''preferences-system'', keywords_m = [],
      execCommand = ''systemsettings kcm_foo''\<rparr>"

definition full_module :: KCMModule where
  "full_module =
     \<lparr>id_m = ''kcm_foo'', name = ''Foo'', description = ''Bar baz'',
      icon = ''foo-icon'', keywords_m = [],
      execCommand = ''systemsettings kcm_foo''\<rparr>"

text \<open>
  A file system with both origins: the legacy \<open>foo.desktop\<close> resolves to the id of the
  modern \<open>kcm_foo.desktop\<close>, two descriptors are named \<open>Bar\<close>, one entry is not a
  desktop file and one cannot be read.
\<close>

definition example_fs :: filesystem where
  "example_fs =
     \<lparr>directories =
        (\<lambda>dir.
           if dir = ''/usr/share/applications''
             then Entries [''kcm_foo.desktop'', ''notes.txt'', ''kcm_zed.desktop'']
           else if dir = ''/usr/share/kservices5''
             then Entries [''foo.desktop'', ''bar.desktop'', ''broken.desktop'']
           else Missing),
      files =
        (\<lambda>path.
           if path = ''/usr/share/applications/kcm_foo.desktop''
             then Some (''Name=Foo'' @ [CHR 0x0A] @ ''Exec=systemsettings kcm_foo'')
           else if path = ''/usr/share/applications/kcm_zed.desktop''
             then Some (''Name=Bar'' @ [CHR 0x0A] @ ''Exec=systemsettings kcm_zed'')
           else if path = ''/usr/share/kservices5/foo.desktop''
             then Some (''Name=Old Foo'' @ [CHR 0x0A] @ ''X-KDE-Library=kcm_foo'')
           else if path = ''/usr/share/kservices5/bar.desktop''
             then Some (''Name=Bar'' @ [CHR 0x0A] @ ''X-KDE-Library=kcm_bar'')
           else None)\<rparr>"

definition zed_module :: KCMModule where
  "zed_module =
     \<lparr>id_m = ''kcm_zed'', name = ''Bar'', description = ''Bar'',
      icon = ''preferences-system'', keywords_m = [],
      execCommand = ''systemsettings kcm_zed''\<rparr>"

definition bar_module :: KCMModule where
  "bar_module =
     \<lparr>id_m = ''kcm_bar'', name = ''Bar'', description = ''Bar'',
      icon = ''preferences-system'', keywords_m = [],
      execCommand = ''kcmshell6 kcm_bar''\<rparr>"

definition old_foo_module :: KCMModule where
  "old_foo_module =
     \<lparr>id_m = ''kcm_foo'', name = ''Old Foo'', description = ''Old Foo'',
      icon = ''preferences-system'', keywords_m = [],
      execCommand = ''kcmshell6 kcm_foo''\<rparr>"

section \<open>Properties of the string primitives\<close>

lemma includes_str_sublist: "includes_str s sub = sublist sub s"
  by (induction s) (simp_all add: sublist_Cons_right)

lemma includes_str_char: "includes_str s [c] = (c \<in> set s)"
  by (induction s) auto

lemma trimmed_trim: "trimmed (trim s)"
proof -
  define a where "a = dropWhile isWhiteSpace s"
  define b where "b = dropWhile isWhiteSpace (rev a)"
  have hd_a: "a \<noteq> [] \<Longrightarrow> \<not> isWhiteSpace (hd a)"
    unfolding a_def by (rule hd_dropWhile)
  have trim: "trim s = rev b" by (simp add: trim_def a_def b_def)
  show ?thesis
  proof (cases "b = []")
    case True
    then show ?thesis by (simp add: trimmed_def trim)
  next
    case False
    then have hd_b: "\<not> isWhiteSpace (hd b)" unfolding b_def by (rule hd_dropWhile)
    have a_ne: "a \<noteq> []" using False by (auto simp: b_def)
    have "rev a = takeWhile isWhiteSpace (rev a) @ b" by (simp add: b_def)
    then have "a = rev b @ rev (takeWhile isWhiteSpace (rev a))"
      by (metis rev_append rev_rev_ident)
    then have "hd a = hd (rev b)" using False by (metis hd_append2 rev_is_Nil_conv)
    then have "\<not> isWhiteSpace (hd (rev b))" using hd_a [OF a_ne] by simp
    moreover have "last (rev b) = hd b" using False by (simp add: last_rev)
    ultimately show ?thesis using False hd_b by (simp add: trimmed_def trim)
  qed
qed

lemma splitWhiteSpace_pieces:
  "s \<noteq> [] \<Longrightarrow> \<not> isWhiteSpace (hd s) \<Longrightarrow> \<not> isWhiteSpace (last s) \<Longrightarrow>
   [] \<notin> set (splitWhiteSpace s)"
proof (induction s rule: splitWhiteSpace.induct)
  case (1 s)
  let ?piece = "takeWhile (\<lambda>c. \<not> isWhiteSpace c) s"
  let ?rest = "dropWhile (\<lambda>c. \<not> isWhiteSpace c) s"
  let ?next = "dropWhile isWhiteSpace ?rest"
  have piece: "?piece \<noteq> []" using "1.prems"(1,2) by (cases s) auto
  show ?case
  proof (cases "?rest = []")
    case True
    then show ?thesis using piece by (subst splitWhiteSpace.simps) (simp add: Let_def)
  next
    case False
    have "s = ?piece @ ?rest" by simp
    then have "last s = last ?rest" using False by (metis last_appendR)
    then have last_rest: "\<not> isWhiteSpace (last ?rest)" using "1.prems"(3) by simp
    have "last ?rest \<in> set ?rest" using False by simp
    then have next_ne: "?next \<noteq> []" using last_rest by (auto simp: dropWhile_eq_Nil_conv)
    then have hd_next: "\<not> isWhiteSpace (hd ?next)" by (rule hd_dropWhile)
    have "?rest = takeWhile isWhiteSpace ?rest @ ?next" by simp
    then have "last ?rest = last ?next" using next_ne by (metis last_appendR)
    then have "\<not> isWhiteSpace (last ?next)" using last_rest by simp
    then have "[] \<notin> set (splitWhiteSpace ?next)"
      using "1.IH" [OF refl refl False next_ne hd_next] by simp
    then show ?thesis using piece False by (subst splitWhiteSpace.simps) (simp add: Let_def)
  qed
qed

lemma splitWhiteSpace_second:
  assumes "trimmed s" and "1 < length (splitWhiteSpace s)"
  shows "splitWhiteSpace s ! 1 \<noteq> []"
proof -
  have "s \<noteq> []"
  proof
    assume "s = []"
    then have "splitWhiteSpace s = [[]]" by (subst splitWhiteSpace.simps) simp
    then show False using assms(2) by simp
  qed
  moreover from this assms(1) have "\<not> isWhiteSpace (hd s)" and "\<not> isWhiteSpace (last s)"
    by (simp_all add: trimmed_def)
  ultimately have "[] \<notin> set (splitWhiteSpace s)"
    by (rule splitWhiteSpace_pieces)
  then show ?thesis using assms(2) by (metis nth_mem)
qed

section \<open>The parser on the example records\<close>

text \<open>
  C2. The record \<open>Name=Foo\<close>, \<open>Exec=systemsettings kcm_foo\<close> parses to the descriptor
  with id \<open>kcm_foo\<close>, name \<open>Foo\<close> and launch command \<open>systemsettings kcm_foo\<close>; the
  record \<open>Name=Bar\<close>, \<open>X-KDE-Library=kcm_bar\<close> parses to the descriptor with id
  \<open>kcm_bar\<close>, name \<open>Bar\<close> and launch command \<open>kcmshell6 kcm_bar\<close>. The other fields
  take their defaults.
\<close>

theorem parse_examples:
  "parseContent (''Name=Foo'' @ [CHR 0x0A] @ ''Exec=systemsettings kcm_foo'') =
     Some \<lparr>id_m = ''kcm_foo'', name = ''Foo'', description = ''Foo'',
           icon = ''preferences-system'', keywords_m = [],
           execCommand = ''systemsettings kcm_foo''\<rparr>
   \<and> parseContent (''Name=Bar'' @ [CHR 0x0A] @ ''X-KDE-Library=kcm_bar'') =
     Some \<lparr>id_m = ''kcm_bar'', name = ''Bar'', description = ''Bar'',
           icon = ''preferences-system'', keywords_m = [],
           execCommand = ''kcmshell6 kcm_bar''\<rparr>"
  by code_simp

section \<open>The parser\<close>

lemma parse_line_exec_trimmed:
  "trimmed (v_execCommand v) \<Longrightarrow> trimmed (v_execCommand (parse_line line v))"
  by (simp add: parse_line_def trimmed_trim)

lemma parse_lines_exec_trimmed:
  "trimmed (v_execCommand v) \<Longrightarrow> trimmed (v_execCommand (parse_lines lines v))"
  by (induction lines arbitrary: v) (simp_all add: parse_line_exec_trimmed)

lemma extract_vars_exec_trimmed: "trimmed (v_execCommand (extract_vars content))"
  unfolding extract_vars_def
  by (rule parse_lines_exec_trimmed) (simp add: initial_vars_def trimmed_def)

lemma parse_line_name:
  "\<not> (startsWith line ''Name='' \<and> CHR ''['' \<notin> set line) \<Longrightarrow>
   v_name (parse_line line v) = v_name v"
  by (auto simp: parse_line_def includes_str_char)

lemma parse_lines_name:
  "\<forall>line \<in> set lines. \<not> (startsWith line ''Name='' \<and> CHR ''['' \<notin> set line) \<Longrightarrow>
   v_name (parse_lines lines v) = v_name v"
  by (induction lines arbitrary: v) (simp_all add: parse_line_name)

lemma no_name_line_absent:
  assumes "\<forall>line \<in> set (split content (CHR 0x0A)).
             \<not> (startsWith line ''Name='' \<and> CHR ''['' \<notin> set line)"
  shows "parseContent content = None"
proof -
  have "v_name (extract_vars content) = []"
    unfolding extract_vars_def using parse_lines_name [OF assms] by (simp add: initial_vars_def)
  then show ?thesis by (simp add: parseContent_def)
qed

lemma parseContent_None_iff:
  "parseContent content = None \<longleftrightarrow>
     v_name (extract_vars content) = []
     \<or> fst (resolve (v_execCommand (extract_vars content)) (v_moduleId (extract_vars content))) = []"
  by (simp add: parseContent_def Let_def split: prod.splits)

lemma resolve_unresolved_iff:
  assumes "trimmed e"
  shows "fst (resolve e lib) = [] \<longleftrightarrow>
     (includes_str e ''systemsettings'' \<and> length (splitWhiteSpace e) < 2)
     \<or> (\<not> includes_str e ''systemsettings'' \<and> lib = [])"
  using splitWhiteSpace_second [OF assms] by (auto simp: resolve_def Let_def)

lemma parse_line_description:
  "\<not> (startsWith line ''Comment='' \<and> CHR ''['' \<notin> set line) \<Longrightarrow>
   v_description (parse_line line v) = v_description v"
  by (auto simp: parse_line_def includes_str_char)

lemma parse_lines_description:
  "\<forall>line \<in> set lines. \<not> (startsWith line ''Comment='' \<and> CHR ''['' \<notin> set line) \<Longrightarrow>
   v_description (parse_lines lines v) = v_description v"
  by (induction lines arbitrary: v) (simp_all add: parse_line_description)

lemma parse_line_icon:
  "\<not> startsWith line ''Icon='' \<Longrightarrow> v_icon (parse_line line v) = v_icon v"
  by (auto simp: parse_line_def)

lemma parse_lines_icon:
  "\<forall>line \<in> set lines. \<not> startsWith line ''Icon='' \<Longrightarrow>
   v_icon (parse_lines lines v) = v_icon v"
  by (induction lines arbitrary: v) (simp_all add: parse_line_icon)

lemma parse_lines_append:
  "parse_lines (xs @ ys) v = parse_lines ys (parse_lines xs v)"
  by (induction xs arbitrary: v) simp_all

lemma parse_line_comment:
  "startsWith line ''Comment='' \<Longrightarrow> CHR ''['' \<notin> set line \<Longrightarrow>
   v_description (parse_line line v) = trim (substring line 8)"
  by (auto simp: parse_line_def includes_str_char startsWith_def elim!: prefixE)

lemma parse_line_icon_line:
  "startsWith line ''Icon='' \<Longrightarrow> v_icon (parse_line line v) = trim (substring line 5)"
  by (auto simp: parse_line_def includes_str_char startsWith_def elim!: prefixE)

lemma last_comment_line:
  assumes "lines = before @ line # after"
    and "startsWith line ''Comment=''" and "CHR ''['' \<notin> set line"
    and "\<forall>l \<in> set after. \<not> (startsWith l ''Comment='' \<and> CHR ''['' \<notin> set l)"
  shows "v_description (parse_lines lines v) = trim (substring line 8)"
  using assms by (simp add: parse_lines_append parse_lines_description parse_line_comment)

lemma last_icon_line:
  assumes "lines = before @ line # after"
    and "startsWith line ''Icon=''"
    and "\<forall>l \<in> set after. \<not> startsWith l ''Icon=''"
  shows "v_icon (parse_lines lines v) = trim (substring line 5)"
  using assms by (simp add: parse_lines_append parse_lines_icon parse_line_icon_line)

section \<open>Identifier resolution\<close>

text \<open>
  C1, as the code has it. The identifier and the launch command of the parser's
  result are decided in this order: no result when the extracted name is empty; when
  the extracted \<open>Exec\<close> value contains \<open>systemsettings\<close>, the second piece of its split
  on white space is the id and the whole value is the launch command if there are at
  least two pieces, and there is no result otherwise, whether or not a library
  reference was captured; when the \<open>Exec\<close> value does not contain the token and a
  library reference was captured, the id is that value and the launch command is
  \<open>kcmshell6\<close> followed by it; no result in every other case.
\<close>

theorem identifier_resolution:
  "map_option (\<lambda>m. (id_m m, execCommand m)) (parseContent content) =
     (let v = extract_vars content; parts = splitWhiteSpace (v_execCommand v)
      in if v_name v = [] then None
         else if includes_str (v_execCommand v) ''systemsettings'' then
           (if 2 \<le> length parts then Some (parts ! 1, v_execCommand v) else None)
         else if v_moduleId v \<noteq> [] then Some (v_moduleId v, ''kcmshell6 '' @ v_moduleId v)
         else None)"
proof -
  have "trimmed (v_execCommand (extract_vars content))" by (rule extract_vars_exec_trimmed)
  then have second: "1 < length (splitWhiteSpace (v_execCommand (extract_vars content))) \<Longrightarrow>
      splitWhiteSpace (v_execCommand (extract_vars content)) ! 1 \<noteq> []"
    by (rule splitWhiteSpace_second)
  show ?thesis
    using second by (auto simp: parseContent_def resolve_def Let_def)
qed

text \<open>
  The three outcomes at concrete records: the modern one, the legacy one, and a
  launcher command with no module beside a library reference.
\<close>

theorem identifier_resolution_witness:
  "map_option (\<lambda>m. (id_m m, execCommand m)) (parseContent modern_record) =
     Some (''kcm_foo'', ''systemsettings kcm_foo'')
   \<and> map_option (\<lambda>m. (id_m m, execCommand m)) (parseContent legacy_record) =
     Some (''kcm_bar'', ''kcmshell6 kcm_bar'')
   \<and> map_option (\<lambda>m. (id_m m, execCommand m)) (parseContent launcher_without_module) = None"
proof -
  let ?rule = "\<lambda>content.
     (let v = extract_vars content; parts = splitWhiteSpace (v_execCommand v)
      in if v_name v = [] then None
         else if includes_str (v_execCommand v) ''systemsettings'' then
           (if 2 \<le> length parts then Some (parts ! 1, v_execCommand v) else None)
         else if v_moduleId v \<noteq> [] then Some (v_moduleId v, ''kcmshell6 '' @ v_moduleId v)
         else None)"
  have "?rule modern_record = Some (''kcm_foo'', ''systemsettings kcm_foo'')" by code_simp
  moreover have "?rule legacy_record = Some (''kcm_bar'', ''kcmshell6 kcm_bar'')" by code_simp
  moreover have "?rule launcher_without_module = None" by code_simp
  ultimately show ?thesis
    using identifier_resolution [of modern_record] identifier_resolution [of legacy_record]
      identifier_resolution [of launcher_without_module]
    by (simp only:)
qed

text \<open>
  C1 as the claim words it fails: for the record \<open>Name=Foo\<close>, \<open>Exec=systemsettings\<close>,
  \<open>X-KDE-Library=kcm_foo\<close> rule 1 resolves nothing, the claimed table then takes the
  library reference, and the parser returns nothing.
\<close>

theorem identifier_resolution_counterexample:
  "rule_table_as_claimed (v_execCommand (extract_vars launcher_without_module))
       (v_moduleId (extract_vars launcher_without_module)) =
     Some (''kcm_foo'', ''kcmshell6 kcm_foo'')
   \<and> v_name (extract_vars launcher_without_module) = ''Foo''
   \<and> parseContent launcher_without_module = None"
  by code_simp

section \<open>Records that are no module\<close>

text \<open>
  C3, as the code has it. The parser returns nothing exactly when the extracted name
  is empty, or the extracted \<open>Exec\<close> value contains \<open>systemsettings\<close> and splits on
  white space into fewer than two pieces, or it does not contain \<open>systemsettings\<close>
  and no library reference was captured; every other record is accepted. A record
  none of whose lines is an unqualified \<open>Name\<close> line (starts with \<open>Name=\<close>, no
  bracket) gives nothing, whatever else it holds; so does a record whose \<open>Exec\<close>
  value is \<open>systemsettings\<close> alone and that has no library reference.
\<close>

theorem absent_exactly_when:
  "(parseContent content = None \<longleftrightarrow>
      v_name (extract_vars content) = []
      \<or> (includes_str (v_execCommand (extract_vars content)) ''systemsettings''
          \<and> length (splitWhiteSpace (v_execCommand (extract_vars content))) < 2)
      \<or> (\<not> includes_str (v_execCommand (extract_vars content)) ''systemsettings''
          \<and> v_moduleId (extract_vars content) = []))
   \<and> ((\<forall>line \<in> set (split content (CHR 0x0A)).
          \<not> (startsWith line ''Name='' \<and> CHR ''['' \<notin> set line))
        \<longrightarrow> parseContent content = None)
   \<and> (v_execCommand (extract_vars content) = ''systemsettings''
        \<and> v_moduleId (extract_vars content) = []
        \<longrightarrow> parseContent content = None)"
proof -
  let ?v = "extract_vars content"
  have unresolved: "fst (resolve (v_execCommand ?v) (v_moduleId ?v)) = [] \<longleftrightarrow>
      (includes_str (v_execCommand ?v) ''systemsettings''
         \<and> length (splitWhiteSpace (v_execCommand ?v)) < 2)
      \<or> (\<not> includes_str (v_execCommand ?v) ''systemsettings'' \<and> v_moduleId ?v = [])"
    by (rule resolve_unresolved_iff) (rule extract_vars_exec_trimmed)
  have iff: "parseContent content = None \<longleftrightarrow>
      v_name ?v = []
      \<or> (includes_str (v_execCommand ?v) ''systemsettings''
          \<and> length (splitWhiteSpace (v_execCommand ?v)) < 2)
      \<or> (\<not> includes_str (v_execCommand ?v) ''systemsettings'' \<and> v_moduleId ?v = [])"
    using parseContent_None_iff [of content] unresolved by blast
  have bare: "parseContent content = None" if "v_execCommand ?v = ''systemsettings''"
  proof -
    have "splitWhiteSpace ''systemsettings'' = [''systemsettings'']" by code_simp
    moreover have "includes_str ''systemsettings'' ''systemsettings''" by code_simp
    ultimately show ?thesis using that iff by simp
  qed
  from iff bare show ?thesis
    using no_name_line_absent [of content] by blast
qed

text \<open>
  Records rejected and records accepted: one with no \<open>Name\<close> line, one whose \<open>Exec\<close>
  value is the launcher alone, the modern example and the legacy example.
\<close>

theorem absent_exactly_when_witness:
  "list_all (\<lambda>line. \<not> (startsWith line ''Name='' \<and> CHR ''['' \<notin> set line))
     (split no_name_record (CHR 0x0A))
   \<and> parseContent no_name_record = None
   \<and> v_name (extract_vars bare_launcher_record) = ''Foo''
   \<and> v_execCommand (extract_vars bare_launcher_record) = ''systemsettings''
   \<and> v_moduleId (extract_vars bare_launcher_record) = []
   \<and> parseContent bare_launcher_record = None
   \<and> parseContent modern_record \<noteq> None
   \<and> parseContent legacy_record \<noteq> None"
proof -
  have no_name: "list_all (\<lambda>line. \<not> (startsWith line ''Name='' \<and> CHR ''['' \<notin> set line))
     (split no_name_record (CHR 0x0A))"
    by code_simp
  have vars: "v_name (extract_vars bare_launcher_record) = ''Foo''"
    "v_execCommand (extract_vars bare_launcher_record) = ''systemsettings''"
    "v_moduleId (extract_vars bare_launcher_record) = []"
    by code_simp+
  have modern: "v_name (extract_vars modern_record) \<noteq> []"
    "includes_str (v_execCommand (extract_vars modern_record)) ''systemsettings''"
    "\<not> length (splitWhiteSpace (v_execCommand (extract_vars modern_record))) < 2"
    by code_simp+
  have legacy: "v_name (extract_vars legacy_record) \<noteq> []"
    "\<not> includes_str (v_execCommand (extract_vars legacy_record)) ''systemsettings''"
    "v_moduleId (extract_vars legacy_record) \<noteq> []"
    by code_simp+
  have "parseContent no_name_record = None"
    using absent_exactly_when [of no_name_record] no_name by (simp only: list_all_iff)
  moreover have "parseContent bare_launcher_record = None"
    using absent_exactly_when [of bare_launcher_record] vars(2,3) by blast
  moreover have "parseContent modern_record \<noteq> None"
    using absent_exactly_when [of modern_record] modern by blast
  moreover have "parseContent legacy_record \<noteq> None"
    using absent_exactly_when [of legacy_record] legacy by blast
  ultimately show ?thesis using no_name vars by blast
qed

text \<open>
  C3 as the claim words it fails, with rules 1 and 2 as the claims word them: the
  record \<open>Name=Baz\<close>, \<open>Exec=systemsettings\<close>, \<open>X-KDE-Library=kcm_baz\<close> has a name, and
  rule 2 resolves the identifier \<open>kcm_baz\<close> once rule 1 has resolved nothing, yet the
  parser returns nothing.
\<close>

theorem absent_exactly_when_counterexample:
  "v_name (extract_vars named_launcher_with_library) = ''Baz''
   \<and> rule_table_as_claimed (v_execCommand (extract_vars named_launcher_with_library))
       (v_moduleId (extract_vars named_launcher_with_library)) =
     Some (''kcm_baz'', ''kcmshell6 kcm_baz'')
   \<and> parseContent named_launcher_with_library = None"
  by code_simp

section \<open>Defaults of the description and the icon\<close>

text \<open>
  C9. For a record the parser accepts, the description is the extracted \<open>Comment\<close>
  value when that is not empty and the name otherwise, and the icon is the extracted
  \<open>Icon\<close> value when that is not empty and \<open>preferences-system\<close> otherwise. The
  extracted value is the trimmed value of the last unqualified \<open>Comment\<close> line (of the
  last \<open>Icon\<close> line); a record with no such line takes the default.
\<close>

theorem description_icon_defaults:
  assumes "parseContent content = Some m"
  shows "name m = v_name (extract_vars content)
    \<and> description m =
           (if v_description (extract_vars content) \<noteq> [] then v_description (extract_vars content)
            else name m)
    \<and> icon m =
           (if v_icon (extract_vars content) \<noteq> [] then v_icon (extract_vars content)
            else ''preferences-system'')
    \<and> ((\<forall>l \<in> set (split content (CHR 0x0A)).
            \<not> (startsWith l ''Comment='' \<and> CHR ''['' \<notin> set l)) \<longrightarrow> description m = name m)
    \<and> ((\<forall>l \<in> set (split content (CHR 0x0A)). \<not> startsWith l ''Icon='')
          \<longrightarrow> icon m = ''preferences-system'')
    \<and> (split content (CHR 0x0A) = before @ line # after
          \<and> startsWith line ''Comment='' \<and> CHR ''['' \<notin> set line
          \<and> (\<forall>l \<in> set after. \<not> (startsWith l ''Comment='' \<and> CHR ''['' \<notin> set l))
          \<longrightarrow> v_description (extract_vars content) = trim (substring line 8))
    \<and> (split content (CHR 0x0A) = before @ line # after
          \<and> startsWith line ''Icon=''
          \<and> (\<forall>l \<in> set after. \<not> startsWith l ''Icon='')
          \<longrightarrow> v_icon (extract_vars content) = trim (substring line 5))"
proof -
  let ?v = "extract_vars content"
  from assms have n: "name m = v_name ?v"
    by (auto simp: parseContent_def Let_def split: if_splits prod.splits)
  from assms have d: "description m =
      (if v_description ?v \<noteq> [] then v_description ?v else name m)"
    by (auto simp: parseContent_def Let_def split: if_splits prod.splits)
  from assms have i: "icon m = (if v_icon ?v \<noteq> [] then v_icon ?v else ''preferences-system'')"
    by (auto simp: parseContent_def Let_def split: if_splits prod.splits)
  have d0: "(\<forall>l \<in> set (split content (CHR 0x0A)).
           \<not> (startsWith l ''Comment='' \<and> CHR ''['' \<notin> set l)) \<longrightarrow> description m = name m"
    using d by (simp add: extract_vars_def parse_lines_description initial_vars_def)
  have i0: "(\<forall>l \<in> set (split content (CHR 0x0A)). \<not> startsWith l ''Icon='')
          \<longrightarrow> icon m = ''preferences-system''"
    using i by (simp add: extract_vars_def parse_lines_icon initial_vars_def)
  have d1: "split content (CHR 0x0A) = before @ line # after
          \<and> startsWith line ''Comment='' \<and> CHR ''['' \<notin> set line
          \<and> (\<forall>l \<in> set after. \<not> (startsWith l ''Comment='' \<and> CHR ''['' \<notin> set l))
          \<longrightarrow> v_description (extract_vars content) = trim (substring line 8)"
    unfolding extract_vars_def
    using last_comment_line [of "split content (CHR 0x0A)" before line after] by blast
  have i1: "split content (CHR 0x0A) = before @ line # after
          \<and> startsWith line ''Icon=''
          \<and> (\<forall>l \<in> set after. \<not> startsWith l ''Icon='')
          \<longrightarrow> v_icon (extract_vars content) = trim (substring line 5)"
    unfolding extract_vars_def
    using last_icon_line [of "split content (CHR 0x0A)" before line after] by blast
  from n d i d0 i0 d1 i1 show ?thesis by (intro conjI)
qed

theorem description_icon_defaults_witness:
  "parseContent modern_record = Some foo_module
   \<and> description foo_module = name foo_module \<and> icon foo_module = ''preferences-system''
   \<and> parseContent full_record = Some full_module
   \<and> v_description (extract_vars full_record) = ''Bar baz''
   \<and> v_icon (extract_vars full_record) = ''foo-icon''
   \<and> description full_module = ''Bar baz'' \<and> icon full_module = ''foo-icon''"
proof -
  have m: "parseContent modern_record = Some foo_module"
    by code_simp
  have "list_all (\<lambda>l. \<not> (startsWith l ''Comment='' \<and> CHR ''['' \<notin> set l))
          (split modern_record (CHR 0x0A))"
    and "list_all (\<lambda>l. \<not> startsWith l ''Icon='') (split modern_record (CHR 0x0A))"
    by code_simp+
  then have "\<forall>l \<in> set (split modern_record (CHR 0x0A)).
          \<not> (startsWith l ''Comment='' \<and> CHR ''['' \<notin> set l)"
    and "\<forall>l \<in> set (split modern_record (CHR 0x0A)). \<not> startsWith l ''Icon=''"
    by (simp_all only: list_all_iff)
  then have plain: "description foo_module = name foo_module
      \<and> icon foo_module = ''preferences-system''"
    using description_icon_defaults [OF m, of "[]" "[]" "[]"] by blast
  have f: "parseContent full_record = Some full_module"
    by code_simp
  have c: "split full_record (CHR 0x0A) =
      [''Name=Foo''] @ ''Comment=Bar baz'' # [''Icon=foo-icon'', ''Exec=systemsettings kcm_foo'']"
    "startsWith ''Comment=Bar baz'' ''Comment=''" "CHR ''['' \<notin> set ''Comment=Bar baz''"
    "list_all (\<lambda>l. \<not> (startsWith l ''Comment='' \<and> CHR ''['' \<notin> set l))
       [''Icon=foo-icon'', ''Exec=systemsettings kcm_foo'']"
    by code_simp+
  have ic: "split full_record (CHR 0x0A) =
      [''Name=Foo'', ''Comment=Bar baz''] @ ''Icon=foo-icon'' # [''Exec=systemsettings kcm_foo'']"
    "startsWith ''Icon=foo-icon'' ''Icon=''"
    "list_all (\<lambda>l. \<not> startsWith l ''Icon='') [''Exec=systemsettings kcm_foo'']"
    by code_simp+
  have texts: "trim (substring ''Comment=Bar baz'' 8) = ''Bar baz''"
    "trim (substring ''Icon=foo-icon'' 5) = ''foo-icon''"
    by code_simp+
  have "v_description (extract_vars full_record) = trim (substring ''Comment=Bar baz'' 8)"
    using description_icon_defaults [OF f, of "[''Name=Foo'']" "''Comment=Bar baz''"
        "[''Icon=foo-icon'', ''Exec=systemsettings kcm_foo'']"] c [unfolded list_all_iff]
    by blast
  then have vd: "v_description (extract_vars full_record) = ''Bar baz''"
    using texts(1) by (simp only:)
  have "v_icon (extract_vars full_record) = trim (substring ''Icon=foo-icon'' 5)"
    using description_icon_defaults [OF f, of "[''Name=Foo'', ''Comment=Bar baz'']"
        "''Icon=foo-icon''" "[''Exec=systemsettings kcm_foo'']"] ic [unfolded list_all_iff]
    by blast
  then have vi: "v_icon (extract_vars full_record) = ''foo-icon''"
    using texts(2) by (simp only:)
  have "description full_module = ''Bar baz'' \<and> icon full_module = ''foo-icon''"
    using description_icon_defaults [OF f] vd vi by simp
  then show ?thesis using plain m f vd vi by blast
qed

section \<open>Lines with a bracket\<close>

text \<open>
  C10. A line that starts with \<open>Name=\<close>, \<open>Comment=\<close> or \<open>X-KDE-Keywords=\<close> and holds
  a \<open>[\<close> anywhere, in its value too, changes no variable of the parser. So a record
  whose every \<open>Name=\<close> line holds a bracket is no module; \<open>Name=Foo [Beta]\<close> with a
  modern \<open>Exec\<close> line is one.
\<close>

theorem bracket_lines_ignored:
  "((startsWith line ''Name='' \<or> startsWith line ''Comment=''
       \<or> startsWith line ''X-KDE-Keywords='') \<and> CHR ''['' \<in> set line
      \<longrightarrow> parse_line line v = v)
   \<and> ((\<forall>l \<in> set (split content (CHR 0x0A)). startsWith l ''Name='' \<longrightarrow> CHR ''['' \<in> set l)
        \<longrightarrow> parseContent content = None)
   \<and> parseContent (''Name=Foo [Beta]'' @ [CHR 0x0A] @ ''Exec=systemsettings kcm_foo'') = None"
proof -
  have "parse_line line v = v"
    if "startsWith line ''Name='' \<or> startsWith line ''Comment=''
          \<or> startsWith line ''X-KDE-Keywords=''" and "CHR ''['' \<in> set line"
    using that by (auto simp: parse_line_def includes_str_char startsWith_def elim!: prefixE)
  moreover have "parseContent content = None"
    if "\<forall>l \<in> set (split content (CHR 0x0A)). startsWith l ''Name='' \<longrightarrow> CHR ''['' \<in> set l"
    using that by (intro no_name_line_absent) blast
  moreover have
    "parseContent (''Name=Foo [Beta]'' @ [CHR 0x0A] @ ''Exec=systemsettings kcm_foo'') = None"
    by code_simp
  ultimately show ?thesis by blast
qed

theorem bracket_lines_ignored_witness:
  "startsWith ''Name=Foo [Beta]'' ''Name='' \<and> CHR ''['' \<in> set ''Name=Foo [Beta]''
   \<and> parse_line ''Name=Foo [Beta]'' initial_vars = initial_vars
   \<and> list_all (\<lambda>l. \<not> startsWith l ''Name='' \<or> CHR ''['' \<in> set l)
        (split bracket_record (CHR 0x0A))
   \<and> parseContent bracket_record = None"
proof -
  have line: "startsWith ''Name=Foo [Beta]'' ''Name=''" "CHR ''['' \<in> set ''Name=Foo [Beta]''"
    by code_simp+
  have all: "list_all (\<lambda>l. \<not> startsWith l ''Name='' \<or> CHR ''['' \<in> set l)
        (split bracket_record (CHR 0x0A))"
    by code_simp
  have "parse_line ''Name=Foo [Beta]'' initial_vars = initial_vars"
    using bracket_lines_ignored [of "''Name=Foo [Beta]''" initial_vars] line by blast
  moreover have "parseContent bracket_record = None"
    using bracket_lines_ignored [of _ _ bracket_record] all by (auto simp: list_all_iff)
  ultimately show ?thesis using line all by blast
qed

section \<open>The search filter\<close>

lemma matches_empty: "matches [] = (\<lambda>m. True)"
  by (rule ext) (simp add: matches_def)

lemma matches_nonempty:
  "q \<noteq> [] \<Longrightarrow>
   matches q =
     (\<lambda>m. sublist (toLowerCase q) (toLowerCase (name m))
        \<or> sublist (toLowerCase q) (toLowerCase (description m))
        \<or> (\<exists>k \<in> set (keywords_m m). sublist (toLowerCase q) (toLowerCase k)))"
  by (rule ext) (simp add: matches_def Let_def includes_str_sublist list_ex_iff)

text \<open>
  C6. With the empty query the filter returns its input unchanged. With a non-empty
  query it keeps, in order, exactly the descriptors for which the lower-cased query
  is a substring of the lower-cased name, or of the lower-cased description, or of at
  least one lower-cased keyword.
\<close>

theorem filter_matches:
  "filteredModules c [] = c
   \<and> (q \<noteq> [] \<longrightarrow>
        filteredModules c q =
          filter (\<lambda>m. sublist (toLowerCase q) (toLowerCase (name m))
                    \<or> sublist (toLowerCase q) (toLowerCase (description m))
                    \<or> (\<exists>k \<in> set (keywords_m m). sublist (toLowerCase q) (toLowerCase k))) c)"
  by (simp add: filteredModules_def matches_empty matches_nonempty)

theorem filter_matches_witness:
  "''bt'' \<noteq> [] \<and> filteredModules [display, bluetooth] ''bt'' = [bluetooth]
   \<and> filteredModules [display, bluetooth] [] = [display, bluetooth]"
proof -
  let ?spec = "\<lambda>m. sublist (toLowerCase ''bt'') (toLowerCase (name m))
                    \<or> sublist (toLowerCase ''bt'') (toLowerCase (description m))
                    \<or> (\<exists>k \<in> set (keywords_m m). sublist (toLowerCase ''bt'') (toLowerCase k))"
  have ne: "''bt'' \<noteq> []" by simp
  have kept: "filter ?spec [display, bluetooth] = [bluetooth]" by code_simp
  have "filteredModules [display, bluetooth] ''bt'' = filter ?spec [display, bluetooth]"
    using filter_matches [of "[display, bluetooth]" "''bt''"] ne by blast
  then have "filteredModules [display, bluetooth] ''bt'' = [bluetooth]"
    using kept by (simp only:)
  moreover have "filteredModules [display, bluetooth] [] = [display, bluetooth]"
    using filter_matches [of "[display, bluetooth]" "''bt''"] by blast
  ultimately show ?thesis using ne by blast
qed

text \<open>
  C7. The filter's result is a subsequence of its input, in the input's order, and
  filtering the result again with the same query changes nothing.
\<close>

theorem filter_subsequence_idempotent:
  "subseq (filteredModules c q) c
   \<and> filteredModules (filteredModules c q) q = filteredModules c q"
  by (simp add: filteredModules_def)

section \<open>The sort\<close>

lemma mset_insert_module: "mset (insert_module cmp m xs) = add_mset m (mset xs)"
  by (induction xs) auto

lemma mset_sort_modules: "mset (sort_modules cmp ms) = mset ms"
  by (induction ms) (simp_all add: sort_modules_def mset_insert_module)

lemma set_sort_modules: "set (sort_modules cmp ms) = set ms"
  using mset_sort_modules [of cmp ms] by (metis set_mset_mset)

lemma set_insert_module: "set (insert_module cmp m xs) = insert m (set xs)"
  using mset_insert_module [of cmp m xs] by (metis set_mset_mset set_mset_add_mset_insert)

lemma sorted_insert_module:
  assumes "consistent_comparator cmp"
    and "sorted_wrt (\<lambda>a b. cmp (name a) (name b) \<le> 0) xs"
  shows "sorted_wrt (\<lambda>a b. cmp (name a) (name b) \<le> 0) (insert_module cmp m xs)"
  using assms(2)
proof (induction xs)
  case Nil
  then show ?case by simp
next
  case (Cons x xs)
  from assms(1) have total: "\<And>a b. cmp a b \<le> 0 \<or> cmp b a \<le> 0"
    and trans: "\<And>a b c. cmp a b \<le> 0 \<Longrightarrow> cmp b c \<le> 0 \<Longrightarrow> cmp a c \<le> 0"
    unfolding consistent_comparator_def by blast+
  show ?case
  proof (cases "cmp (name m) (name x) \<le> 0")
    case True
    then show ?thesis using Cons.prems trans by auto
  next
    case False
    then have "cmp (name x) (name m) \<le> 0" using total by blast
    then show ?thesis using False Cons by (auto simp: set_insert_module)
  qed
qed

lemma sorted_sort_modules:
  "consistent_comparator cmp \<Longrightarrow>
   sorted_wrt (\<lambda>a b. cmp (name a) (name b) \<le> 0) (sort_modules cmp ms)"
  by (induction ms) (simp_all add: sort_modules_def sorted_insert_module)

lemma filter_insert_module:
  assumes "consistent_comparator cmp"
  shows "filter (\<lambda>x. ties cmp (name x) k) (insert_module cmp m xs) =
     (if ties cmp (name m) k then m # filter (\<lambda>x. ties cmp (name x) k) xs
      else filter (\<lambda>x. ties cmp (name x) k) xs)"
proof (induction xs)
  case Nil
  then show ?case by simp
next
  case (Cons x xs)
  from assms have trans: "\<And>a b c. cmp a b \<le> 0 \<Longrightarrow> cmp b c \<le> 0 \<Longrightarrow> cmp a c \<le> 0"
    unfolding consistent_comparator_def by blast
  have "cmp (name m) (name x) \<le> 0" if "ties cmp (name m) k" and "ties cmp (name x) k"
    using that trans unfolding ties_def by blast
  then show ?case using Cons by auto
qed

lemma filter_sort_modules:
  "consistent_comparator cmp \<Longrightarrow>
   filter (\<lambda>x. ties cmp (name x) k) (sort_modules cmp ms) = filter (\<lambda>x. ties cmp (name x) k) ms"
  by (induction ms) (simp_all add: sort_modules_def filter_insert_module)

lemma sort_modules_sorted:
  "sorted_wrt (\<lambda>a b. cmp (name a) (name b) \<le> 0) ms \<Longrightarrow> sort_modules cmp ms = ms"
proof (induction ms)
  case Nil
  then show ?case by (simp add: sort_modules_def)
next
  case (Cons x xs)
  then have "sort_modules cmp xs = xs" by simp
  then have "sort_modules cmp (x # xs) = insert_module cmp x xs" by (simp add: sort_modules_def)
  then show ?case using Cons.prems by (cases xs) auto
qed

text \<open>The order of the code units is a consistent comparator.\<close>

lemma compareCodeUnits_total: "compareCodeUnits a b \<le> 0 \<or> compareCodeUnits b a \<le> 0"
  by (induction a b rule: compareCodeUnits.induct) auto

lemma compareCodeUnits_trans:
  "compareCodeUnits a b \<le> 0 \<Longrightarrow> compareCodeUnits b c \<le> 0 \<Longrightarrow> compareCodeUnits a c \<le> 0"
proof (induction a b arbitrary: c rule: compareCodeUnits.induct)
  case 1
  then show ?case by simp
next
  case (2 y ys)
  then show ?case by (cases c) auto
next
  case (3 x xs)
  then show ?case by simp
next
  case (4 x xs y ys)
  let ?x = "of_char x :: nat" and ?y = "of_char y :: nat"
  have xy: "?x < ?y \<or> (?x = ?y \<and> compareCodeUnits xs ys \<le> 0)"
    using "4.prems"(1) by (cases "?x < ?y"; cases "?y < ?x"; simp)
  show ?case
  proof (cases c)
    case Nil
    then show ?thesis using "4.prems"(2) by simp
  next
    case (Cons z zs)
    let ?z = "of_char z :: nat"
    have yz: "?y < ?z \<or> (?y = ?z \<and> compareCodeUnits ys zs \<le> 0)"
      using "4.prems"(2) Cons by (cases "?y < ?z"; cases "?z < ?y"; simp)
    show ?thesis
    proof (cases "?x < ?z")
      case True
      then show ?thesis using Cons by simp
    next
      case False
      with xy yz have eq: "?x = ?y" "?y = ?z"
        and le: "compareCodeUnits xs ys \<le> 0" "compareCodeUnits ys zs \<le> 0"
        by linarith+
      have "compareCodeUnits xs zs \<le> 0"
        using "4.IH" [of zs] eq le by simp
      then show ?thesis using Cons eq by simp
    qed
  qed
qed

lemma compareCodeUnits_consistent: "consistent_comparator compareCodeUnits"
  unfolding consistent_comparator_def
  using compareCodeUnits_total compareCodeUnits_trans by blast

section \<open>The scanner's result\<close>

lemma scan_files_accumulate:
  "scan_files fs dir wanted entries st =
     accumulate
       (List.map_filter (\<lambda>file. parseDesktopFile fs (join dir file)) (filter wanted entries)) st"
  by (induction entries arbitrary: st)
    (simp_all add: visit_def map_filter_simps split: option.splits)

lemma scan_directory_accumulate:
  "scan_directory fs dir wanted st = accumulate (descriptors_of fs dir wanted) st"
  by (simp add: scan_directory_def descriptors_of_def scan_files_accumulate
      split: directory.splits)

lemma accumulate_append: "accumulate (xs @ ys) st = accumulate ys (accumulate xs st)"
  by (induction xs arbitrary: st) simp_all

lemma scanned_modules_accumulate:
  "scanned_modules fs =
     modules (accumulate
       (descriptors_of fs applicationsDir wanted_modern
          @ descriptors_of fs kservices5Dir wanted_legacy)
       \<lparr>modules = [], seen = {}\<rparr>)"
  by (simp add: scanned_modules_def scan_directory_accumulate accumulate_append)

lemma in_step_push: "in_step st \<Longrightarrow> in_step (push_unseen m st)"
  by (auto simp: in_step_def push_unseen_def)

lemma in_step_accumulate: "in_step st \<Longrightarrow> in_step (accumulate ms st)"
  by (induction ms arbitrary: st) (simp_all add: in_step_push)

lemma seen_accumulate: "seen (accumulate ms st) = seen st \<union> id_m ` set ms"
  by (induction ms arbitrary: st) (auto simp: push_unseen_def)

lemma first_kept:
  "m \<in> set (modules (accumulate ms st)) \<Longrightarrow>
   m \<in> set (modules st) \<or> (id_m m \<notin> seen st \<and> find (\<lambda>x. id_m x = id_m m) ms = Some m)"
proof (induction ms arbitrary: st)
  case Nil
  then show ?case by simp
next
  case (Cons x xs)
  from Cons.prems have "m \<in> set (modules (accumulate xs (push_unseen x st)))" by simp
  from Cons.IH [OF this] show ?case
    by (auto simp: push_unseen_def split: if_splits)
qed

lemma find_append_first:
  "find P xs = Some y \<Longrightarrow> find P (xs @ ys) = Some y"
  by (induction xs) (auto split: if_splits)

text \<open>
  C4. Whatever the collation, no two descriptors of the scanner's result have the
  same id. The ids of the result are the ids of the descriptors the two origins
  offer, the modern origin first; each descriptor of the result is the first one
  offered with its id; and when the modern origin offers a descriptor with some id,
  the result's descriptor with that id is one of the modern origin.
\<close>

theorem unique_ids_first_wins:
  "distinct (map id_m (loadKCMModules cmp fs))
   \<and> id_m ` set (loadKCMModules cmp fs) =
       id_m ` set (descriptors_of fs applicationsDir wanted_modern
                    @ descriptors_of fs kservices5Dir wanted_legacy)
   \<and> (\<forall>m \<in> set (loadKCMModules cmp fs).
         find (\<lambda>x. id_m x = id_m m)
           (descriptors_of fs applicationsDir wanted_modern
              @ descriptors_of fs kservices5Dir wanted_legacy) = Some m)
   \<and> (\<forall>m \<in> set (loadKCMModules cmp fs).
         id_m m \<in> id_m ` set (descriptors_of fs applicationsDir wanted_modern)
         \<longrightarrow> m \<in> set (descriptors_of fs applicationsDir wanted_modern))"
proof -
  let ?A = "descriptors_of fs applicationsDir wanted_modern"
  let ?B = "descriptors_of fs kservices5Dir wanted_legacy"
  let ?init = "\<lparr>modules = [], seen = {}\<rparr>"
  let ?final = "accumulate (?A @ ?B) ?init"
  have scanned: "scanned_modules fs = modules ?final" by (rule scanned_modules_accumulate)
  have "in_step ?init" by (simp add: in_step_def)
  then have step: "in_step ?final" by (rule in_step_accumulate)
  have set_eq: "set (loadKCMModules cmp fs) = set (modules ?final)"
    by (simp add: loadKCMModules_def set_sort_modules scanned)
  have "mset (map id_m (loadKCMModules cmp fs)) = mset (map id_m (modules ?final))"
    by (simp add: loadKCMModules_def mset_sort_modules scanned)
  then have d: "distinct (map id_m (loadKCMModules cmp fs))"
    using step mset_eq_imp_distinct_iff unfolding in_step_def by blast
  have ids: "id_m ` set (loadKCMModules cmp fs) = id_m ` set (?A @ ?B)"
    using step seen_accumulate [of "?A @ ?B" ?init] unfolding set_eq in_step_def by simp
  have first: "find (\<lambda>x. id_m x = id_m m) (?A @ ?B) = Some m"
    if "m \<in> set (loadKCMModules cmp fs)" for m
    using first_kept [of m "?A @ ?B" ?init] that unfolding set_eq by simp
  have modern: "m \<in> set ?A"
    if m: "m \<in> set (loadKCMModules cmp fs)" and a: "id_m m \<in> id_m ` set ?A" for m
  proof -
    from a obtain y where "find (\<lambda>x. id_m x = id_m m) ?A = Some y"
      by (cases "find (\<lambda>x. id_m x = id_m m) ?A") (auto simp: find_None_iff)
    then have "find (\<lambda>x. id_m x = id_m m) (?A @ ?B) = Some y" and "y \<in> set ?A"
      by (auto simp: find_append_first find_Some_iff)
    then show ?thesis using first [OF m] by simp
  qed
  from d ids first modern show ?thesis by blast
qed

theorem unique_ids_first_wins_witness:
  "descriptors_of example_fs applicationsDir wanted_modern = [foo_module, zed_module]
   \<and> descriptors_of example_fs kservices5Dir wanted_legacy = [old_foo_module, bar_module]
   \<and> id_m old_foo_module = id_m foo_module
   \<and> loadKCMModules compareCodeUnits example_fs = [zed_module, bar_module, foo_module]
   \<and> find (\<lambda>x. id_m x = id_m foo_module)
        (descriptors_of example_fs applicationsDir wanted_modern
           @ descriptors_of example_fs kservices5Dir wanted_legacy) = Some foo_module"
proof -
  have a: "descriptors_of example_fs applicationsDir wanted_modern = [foo_module, zed_module]"
    by code_simp
  have b: "descriptors_of example_fs kservices5Dir wanted_legacy = [old_foo_module, bar_module]"
    by code_simp
  have same: "id_m old_foo_module = id_m foo_module"
    by code_simp
  have loaded: "loadKCMModules compareCodeUnits example_fs = [zed_module, bar_module, foo_module]"
    by code_simp
  then have "foo_module \<in> set (loadKCMModules compareCodeUnits example_fs)"
    by simp
  then have "find (\<lambda>x. id_m x = id_m foo_module)
        (descriptors_of example_fs applicationsDir wanted_modern
           @ descriptors_of example_fs kservices5Dir wanted_legacy) = Some foo_module"
    using unique_ids_first_wins [of compareCodeUnits example_fs] by blast
  then show ?thesis using a b same loaded by (simp only:)
qed

text \<open>
  C5. For a collation that is a consistent comparator, the scanner's result is
  sorted ascending by name; it holds the deduplicated descriptors, each as often; the
  descriptors whose names tie with a given name stand in the order in which they
  were accumulated; and sorting the result again gives the same list.
\<close>

theorem sorted_by_name:
  assumes "consistent_comparator cmp"
  shows "sorted_wrt (\<lambda>a b. cmp (name a) (name b) \<le> 0) (loadKCMModules cmp fs)
    \<and> mset (loadKCMModules cmp fs) = mset (scanned_modules fs)
    \<and> filter (\<lambda>m. ties cmp (name m) k) (loadKCMModules cmp fs) =
        filter (\<lambda>m. ties cmp (name m) k) (scanned_modules fs)
    \<and> sort_modules cmp (loadKCMModules cmp fs) = loadKCMModules cmp fs"
  using assms
  by (simp add: loadKCMModules_def sorted_sort_modules mset_sort_modules filter_sort_modules
      sort_modules_sorted)



theorem sorted_by_name_witness:
  "consistent_comparator compareCodeUnits
   \<and> scanned_modules example_fs = [foo_module, zed_module, bar_module]
   \<and> loadKCMModules compareCodeUnits example_fs = [zed_module, bar_module, foo_module]
   \<and> sort_modules compareCodeUnits [zed_module, bar_module, foo_module] =
       [zed_module, bar_module, foo_module]"
proof -
  have scanned: "scanned_modules example_fs = [foo_module, zed_module, bar_module]"
    by code_simp
  have loaded: "loadKCMModules compareCodeUnits example_fs = [zed_module, bar_module, foo_module]"
    by code_simp
  have "sort_modules compareCodeUnits (loadKCMModules compareCodeUnits example_fs) =
      loadKCMModules compareCodeUnits example_fs"
    using sorted_by_name [OF compareCodeUnits_consistent, of example_fs] by blast
  then show ?thesis using scanned loaded compareCodeUnits_consistent by (simp only:)
qed

section \<open>The launch invokers\<close>

text \<open>
  The invoker of \<open>command-executor.ts\<close> never rejects, and shows a toast for every
  failure of the command. It settles for every command that dies when it is sent
  SIGTERM; a command that traps the signal and never exits leaves it pending, the
  timeout notwithstanding.
\<close>

lemma executor_never_rejects:
  "snd (openKCMModule_executor run message moduleName command) \<noteq> Rejected e"
  by (simp add: openKCMModule_executor_def Let_def split: promise.splits)

lemma executor_reports:
  "execAsync run command (Some 20000) = Rejected e \<Longrightarrow>
   ShowToast ''Error'' (''Failed to open '' @ moduleName @ '': '' @ message e)
     \<in> set (fst (openKCMModule_executor run message moduleName command))"
  by (simp add: openKCMModule_executor_def Let_def)

lemma execAsync_timeout_settles:
  "\<not> traps_sigterm (run command) \<Longrightarrow> execAsync run command (Some limit) \<noteq> Pending"
  by (auto simp: execAsync_def Let_def split: option.splits)

lemma executor_settles:
  "\<not> traps_sigterm (run command) \<Longrightarrow>
   snd (openKCMModule_executor run message moduleName command) \<noteq> Pending"
  using execAsync_timeout_settles [of run command 20000]
  by (simp add: openKCMModule_executor_def Let_def split: promise.splits)

lemma executor_pending_when_trapped:
  "starts (run command) \<Longrightarrow> traps_sigterm (run command) \<Longrightarrow> lifetime (run command) = None \<Longrightarrow>
   openKCMModule_executor run message moduleName command =
     ([ShowToast (''Opening '' @ moduleName @ ''...'') ''Launching KDE System Settings''],
      Pending)"
  by (auto simp: openKCMModule_executor_def execAsync_def Let_def split: option.splits)

lemma executor_times_out:
  "run command = Runs_forever \<or> (\<exists>t code. run command = Exits t code \<and> 20000 < t) \<Longrightarrow>
   execAsync run command (Some 20000) = Rejected TimedOut"
  by (auto simp: execAsync_def Runs_forever_def Exits_def)

text \<open>
  C8. The invoker that the search command calls from its action panel does not do
  what the claim says. It passes no timeout: for a command that never exits, its
  promise never settles. It shows no toast: a command that exits with code 1 leaves
  one line on the console and nothing else. The invoker of \<open>command-executor.ts\<close>,
  on the same commands, is rejected by the timeout and shows the error toast.
\<close>

theorem search_invoker_unbounded_and_silent:
  "openKCMModule_search (\<lambda>command. Runs_forever) ''systemsettings kcm_foo'' = ([], Pending)
   \<and> openKCMModule_search (\<lambda>command. Exits 5 1) ''systemsettings kcm_foo'' =
       ([ConsoleError ''Error opening module:'' (NonZeroExit 1)], Fulfilled ())
   \<and> openKCMModule_executor (\<lambda>command. Runs_forever) (\<lambda>e. ''killed'') ''Foo''
         ''systemsettings kcm_foo'' =
       ([ShowToast ''Opening Foo...'' ''Launching KDE System Settings'',
         ShowToast ''Error'' ''Failed to open Foo: killed''],
        Fulfilled ())"
  by (simp add: openKCMModule_search_def openKCMModule_executor_def execAsync_def
      Runs_forever_def Exits_def)

end
